theory Spec2Isabelle
  imports Complex_Main "HOL-Library.Sublist"
begin

section \<open>The NetEm scheduler of \<^verbatim>\<open>netem_cycle.py\<close>\<close>

text \<open>
  The script keeps a NetEm impairment on one interface except during a daily UTC window.
  Each source function is embedded under its own name. What the script does to the outside
  (the \<^verbatim>\<open>tc\<close> commands it starts, the lines it prints, the time it sleeps) is returned as a
  list of events, and the machine the commands act on is a state \<open>'w\<close> that is passed along.
\<close>

subsection \<open>Configuration constants\<close>

definition IFACE :: string where
  "IFACE = ''ens8''"

definition IMPAIR_CMD :: "string list" where
  "IMPAIR_CMD = [''tc'', ''qdisc'', ''add'', ''dev'', IFACE, ''root'', ''netem'',
                 ''delay'', ''520ms'', ''loss'', ''1%'']"

definition HEAL_CMD :: "string list" where
  "HEAL_CMD = [''tc'', ''qdisc'', ''del'', ''dev'', IFACE, ''root'']"

text \<open>The query of \<^verbatim>\<open>has_netem\<close>, written inline in the source.\<close>

definition SHOW_CMD :: "string list" where
  "SHOW_CMD = [''tc'', ''qdisc'', ''show'', ''dev'', IFACE]"

definition HEALTHY_START_HOUR :: int where
  "HEALTHY_START_HOUR = 3"

definition HEALTHY_END_HOUR :: int where
  "HEALTHY_END_HOUR = 4"

text \<open>Seconds. The source's value is the integer 30; it meets floats in \<^verbatim>\<open>min\<close>.\<close>

definition CHECK_INTERVAL :: real where
  "CHECK_INTERVAL = 30"

subsection \<open>UTC datetimes\<close>

text \<open>
  A \<^verbatim>\<open>datetime\<close> in UTC. The date is held as its proleptic Gregorian ordinal
  (\<^verbatim>\<open>toordinal()\<close>), which is how Python itself orders dates, subtracts them and adds
  days to them. Python's dates stop at 9999-12-31, where adding a day raises
  \<^verbatim>\<open>OverflowError\<close>; the day number here has no upper end, so nothing below speaks about
  that last day, and what is said of the loop as a whole takes its clock readings before
  it (\<open>clock_reading\<close> below).
\<close>

record datetime =
  day :: int
  hour :: int
  minute :: int
  second :: int
  microsecond :: int

text \<open>The ranges the \<^verbatim>\<open>datetime\<close> constructor enforces on the time of day.\<close>

definition valid_datetime :: "datetime \<Rightarrow> bool" where
  "valid_datetime t \<longleftrightarrow>
     0 \<le> hour t \<and> hour t < 24 \<and> 0 \<le> minute t \<and> minute t < 60 \<and>
     0 \<le> second t \<and> second t < 60 \<and> 0 \<le> microsecond t \<and> microsecond t < 1000000"

text \<open>
  The ordinal of 9999-12-31, \<^verbatim>\<open>datetime.max.toordinal()\<close>, and the readings of the clock on
  which the date arithmetic of the script raises nothing in Python: valid datetimes from
  0001-01-01 on whose next day exists.
\<close>

definition MAXORDINAL :: int where
  "MAXORDINAL = 3652059"

definition clock_reading :: "datetime \<Rightarrow> bool" where
  "clock_reading t \<longleftrightarrow> valid_datetime t \<and> 1 \<le> day t \<and> day t < MAXORDINAL"

text \<open>
  \<^verbatim>\<open>t.replace(hour=h, minute=m, second=s, microsecond=us)\<close>: the date stays. The source
  passes the constants 3, 4 and 0 only, which are inside the ranges \<^verbatim>\<open>replace\<close> checks.
\<close>

definition replace_time :: "datetime \<Rightarrow> int \<Rightarrow> int \<Rightarrow> int \<Rightarrow> int \<Rightarrow> datetime" where
  "replace_time t h m s us = t\<lparr>hour := h, minute := m, second := s, microsecond := us\<rparr>"

text \<open>
  \<^verbatim>\<open>a <= b\<close> on two datetimes of the same time zone: Python compares the fields in
  order, as tuples.
\<close>

definition dt_less :: "datetime \<Rightarrow> datetime \<Rightarrow> bool" where
  "dt_less a b \<longleftrightarrow>
     day a < day b \<or> (day a = day b \<and>
      (hour a < hour b \<or> (hour a = hour b \<and>
        (minute a < minute b \<or> (minute a = minute b \<and>
          (second a < second b \<or> (second a = second b \<and>
            microsecond a < microsecond b)))))))"

definition dt_le :: "datetime \<Rightarrow> datetime \<Rightarrow> bool" where
  "dt_le a b \<longleftrightarrow>
     dt_less a b \<or>
     (day a = day b \<and> hour a = hour b \<and> minute a = minute b \<and> second a = second b \<and>
      microsecond a = microsecond b)"

text \<open>
  \<^verbatim>\<open>a - b\<close>: Python builds
  \<^verbatim>\<open>timedelta(days1 - days2, secs1 - secs2, us1 - us2)\<close> with
  \<^verbatim>\<open>secs = second + minute * 60 + hour * 3600\<close>. A timedelta is held here as its whole
  number of microseconds, which is what \<^verbatim>\<open>total_seconds()\<close> divides by \<open>10\<^sup>6\<close>. The
  division is exact here; Python rounds it to a double.
\<close>

type_synonym timedelta = int

definition secs_of_day :: "datetime \<Rightarrow> int" where
  "secs_of_day t = second t + minute t * 60 + hour t * 3600"

definition dt_sub :: "datetime \<Rightarrow> datetime \<Rightarrow> timedelta" where
  "dt_sub a b =
     ((day a - day b) * 86400 + (secs_of_day a - secs_of_day b)) * 1000000
       + (microsecond a - microsecond b)"

definition total_seconds :: "timedelta \<Rightarrow> real" where
  "total_seconds td = real_of_int td / 1000000"

text \<open>\<^verbatim>\<open>t + timedelta(days=1)\<close>: the next date, the same time of day.\<close>

definition add_one_day :: "datetime \<Rightarrow> datetime" where
  "add_one_day t = t\<lparr>day := day t + 1\<rparr>"

text \<open>
  The point of the time line a datetime names, in microseconds from midnight of day 0. The
  script never computes it; the statements below use it to say "earlier", "later" and
  "how far".
\<close>

definition instant :: "datetime \<Rightarrow> int" where
  "instant t = (day t * 86400 + hour t * 3600 + minute t * 60 + second t) * 1000000
                 + microsecond t"

text \<open>Midnight-based instants of the two window boundaries on a given day.\<close>

definition window_start_on :: "int \<Rightarrow> datetime" where
  "window_start_on d =
     \<lparr>day = d, hour = HEALTHY_START_HOUR, minute = 0, second = 0, microsecond = 0\<rparr>"

definition window_end_on :: "int \<Rightarrow> datetime" where
  "window_end_on d =
     \<lparr>day = d, hour = HEALTHY_END_HOUR, minute = 0, second = 0, microsecond = 0\<rparr>"

subsection \<open>The policy function\<close>

definition in_healthy_window :: "datetime \<Rightarrow> bool" where
  "in_healthy_window now_utc = (let h = hour now_utc in HEALTHY_START_HOUR \<le> h \<and> h < HEALTHY_END_HOUR)"

subsection \<open>Commands, exceptions and events\<close>

text \<open>
  What a process writes to its standard output, as a reader in text mode meets it: the text
  the bytes decode to in the encoding of the locale, or bytes that do not decode.
\<close>

datatype proc_output = Text string | Undecodable

text \<open>
  What starting a command can give. \<open>Exited rc out\<close>: the process ran, wrote \<open>out\<close> to its
  standard output and ended with return code \<open>rc\<close>. \<open>LaunchError\<close>: the process could not
  be started (the program is missing or may not be executed), which \<^verbatim>\<open>subprocess\<close> raises
  as an \<^verbatim>\<open>OSError\<close>.
\<close>

datatype proc_result = Exited int proc_output | LaunchError

text \<open>
  The machine the commands run on: a command and a state give a result and a state. Every
  command ends: one that never returns, for which the script (it sets no timeout) would
  wait for ever, is no machine of this type.
\<close>

type_synonym 'w shell = "string list \<Rightarrow> 'w \<Rightarrow> proc_result \<times> 'w"

text \<open>
  The exceptions that running a command raises in the script: a return code other than 0
  where it is checked, a process that could not be started, and output that does not decode
  where it is read as text.
\<close>

datatype exn = CalledProcessError int | OSError | UnicodeDecodeError

text \<open>
  The printed lines, by their fixed part. \<open>Applying\<close> and \<open>Removing\<close> carry a time stamp in
  the source, taken from the clock at the moment of printing; it is left out. Printing is
  taken to succeed: the two output streams of the script are open.
\<close>

datatype message =
    Started
  | Applying
  | ApplyFailed exn
  | Removing
  | RemoveFailed exn
  | HealthySleeping int

text \<open>
  \<open>Sleep d\<close> is \<^verbatim>\<open>time.sleep(d)\<close>, in seconds. Python refuses a negative \<open>d\<close>; both
  sleeps of the script are shown to be positive below.
\<close>

datatype event =
    Exec "string list"
  | Stdout message
  | Stderr message
  | Sleep real

text \<open>The result of an effectful function: its value or the exception it raised, the
  state of the machine afterwards, and the events it caused, in order.\<close>

type_synonym ('a, 'w) outcome = "(exn + 'a) \<times> 'w \<times> event list"

subsection \<open>Running commands\<close>

text \<open>
  \<^verbatim>\<open>subprocess.run(cmd, check=True, stdout=DEVNULL, stderr=DEVNULL)\<close>: a return code other
  than 0 raises. The output goes to the null device and is never read.
\<close>

definition run :: "'w shell \<Rightarrow> string list \<Rightarrow> 'w \<Rightarrow> (unit, 'w) outcome" where
  "run sh cmd w =
     (case sh cmd w of
        (LaunchError, w') \<Rightarrow> (Inl OSError, w', [Exec cmd])
      | (Exited rc out, w') \<Rightarrow>
          (if rc \<noteq> 0 then Inl (CalledProcessError rc) else Inr (), w', [Exec cmd]))"

text \<open>
  \<^verbatim>\<open>subprocess.check_output(cmd, text=True)\<close>: the output is read and decoded first, which
  raises \<^verbatim>\<open>UnicodeDecodeError\<close> on bytes that do not decode, whatever the return code is;
  then a return code other than 0 raises; otherwise the text is returned.
\<close>

definition check_output :: "'w shell \<Rightarrow> string list \<Rightarrow> 'w \<Rightarrow> (string, 'w) outcome" where
  "check_output sh cmd w =
     (case sh cmd w of
        (LaunchError, w') \<Rightarrow> (Inl OSError, w', [Exec cmd])
      | (Exited rc Undecodable, w') \<Rightarrow> (Inl UnicodeDecodeError, w', [Exec cmd])
      | (Exited rc (Text out), w') \<Rightarrow>
          (if rc \<noteq> 0 then Inl (CalledProcessError rc) else Inr out, w', [Exec cmd]))"

subsection \<open>Probe and reconciliation\<close>

text \<open>
  \<^verbatim>\<open>"netem" in out\<close> is the test for a contiguous sublist. An \<^verbatim>\<open>except\<close> clause catches
  \<^verbatim>\<open>CalledProcessError\<close> and nothing else: every other exception leaves the function.
\<close>

definition has_netem :: "'w shell \<Rightarrow> 'w \<Rightarrow> (bool, 'w) outcome" where
  "has_netem sh w =
     (case check_output sh SHOW_CMD w of
        (Inr out, w', ev) \<Rightarrow> (Inr (sublist ''netem'' out), w', ev)
      | (Inl (CalledProcessError rc), w', ev) \<Rightarrow> (Inr False, w', ev)
      | (Inl e, w', ev) \<Rightarrow> (Inl e, w', ev))"

definition impair :: "'w shell \<Rightarrow> 'w \<Rightarrow> (unit, 'w) outcome" where
  "impair sh w =
     (case has_netem sh w of
        (Inl e, w1, ev1) \<Rightarrow> (Inl e, w1, ev1)
      | (Inr present, w1, ev1) \<Rightarrow>
          if present then (Inr (), w1, ev1)
          else
            (case run sh IMPAIR_CMD w1 of
               (Inr u, w2, ev2) \<Rightarrow> (Inr (), w2, ev1 @ [Stdout Applying] @ ev2)
             | (Inl (CalledProcessError rc), w2, ev2) \<Rightarrow>
                 (Inr (), w2,
                  ev1 @ [Stdout Applying] @ ev2 @ [Stderr (ApplyFailed (CalledProcessError rc))])
             | (Inl e, w2, ev2) \<Rightarrow> (Inl e, w2, ev1 @ [Stdout Applying] @ ev2)))"

definition heal :: "'w shell \<Rightarrow> 'w \<Rightarrow> (unit, 'w) outcome" where
  "heal sh w =
     (case has_netem sh w of
        (Inl e, w1, ev1) \<Rightarrow> (Inl e, w1, ev1)
      | (Inr present, w1, ev1) \<Rightarrow>
          if \<not> present then (Inr (), w1, ev1)
          else
            (case run sh HEAL_CMD w1 of
               (Inr u, w2, ev2) \<Rightarrow> (Inr (), w2, ev1 @ [Stdout Removing] @ ev2)
             | (Inl (CalledProcessError rc), w2, ev2) \<Rightarrow>
                 (Inr (), w2,
                  ev1 @ [Stdout Removing] @ ev2 @
                  (if rc \<noteq> 2 then [Stderr (RemoveFailed (CalledProcessError rc))] else []))
             | (Inl e, w2, ev2) \<Rightarrow> (Inl e, w2, ev1 @ [Stdout Removing] @ ev2)))"

subsection \<open>The loop of \<^verbatim>\<open>main\<close>\<close>

text \<open>\<^verbatim>\<open>int(x)\<close> on a float: truncation towards zero.\<close>

definition py_int :: "real \<Rightarrow> int" where
  "py_int x = (if 0 \<le> x then \<lfloor>x\<rfloor> else \<lceil>x\<rceil>)"

text \<open>The body of the loop when \<^verbatim>\<open>in_healthy_window(now)\<close> holds (lines 65 to 72).\<close>

definition healthy_branch :: "'w shell \<Rightarrow> datetime \<Rightarrow> 'w \<Rightarrow> (unit, 'w) outcome" where
  "healthy_branch sh now w =
     (case heal sh w of
        (Inl e, w', ev) \<Rightarrow> (Inl e, w', ev)
      | (Inr u, w', ev) \<Rightarrow>
          (let next_transition = replace_time now HEALTHY_END_HOUR 0 0 0 in
           if dt_le next_transition now then (Inr (), w', ev @ [Sleep CHECK_INTERVAL])
           else
             (let delta = total_seconds (dt_sub next_transition now) in
              (Inr (), w', ev @ [Stdout (HealthySleeping (py_int delta)), Sleep (delta + 1)]))))"

text \<open>The body of the loop otherwise (lines 74 to 80).\<close>

definition impaired_branch :: "'w shell \<Rightarrow> datetime \<Rightarrow> 'w \<Rightarrow> (unit, 'w) outcome" where
  "impaired_branch sh now w =
     (case impair sh w of
        (Inl e, w', ev) \<Rightarrow> (Inl e, w', ev)
      | (Inr u, w', ev) \<Rightarrow>
          (let next_start0 = replace_time now HEALTHY_START_HOUR 0 0 0;
               next_start = (if dt_le next_start0 now then add_one_day next_start0 else next_start0);
               delta = total_seconds (dt_sub next_start now);
               sleep_duration = min delta CHECK_INTERVAL
           in (Inr (), w', ev @ [Sleep sleep_duration])))"

text \<open>One pass of the \<^verbatim>\<open>while True\<close> body, for the clock reading \<open>now\<close>.\<close>

definition iteration :: "'w shell \<Rightarrow> datetime \<Rightarrow> 'w \<Rightarrow> (unit, 'w) outcome" where
  "iteration sh now w =
     (if in_healthy_window now then healthy_branch sh now w else impaired_branch sh now w)"

text \<open>
  The loop never ends by itself, so it is run on the list of the clock readings of its
  passes: \<open>Inr ()\<close> says that every pass of the list ran to its sleep and the loop is still
  running; \<open>Inl e\<close> that the exception \<open>e\<close> left the loop, which ends the process. The
  handler of the interrupt signal (\<^verbatim>\<open>sys.exit(0)\<close>) is asynchronous and is not part of
  the model.
\<close>

fun main_loop :: "'w shell \<Rightarrow> datetime list \<Rightarrow> 'w \<Rightarrow> (unit, 'w) outcome" where
  "main_loop sh [] w = (Inr (), w, [])"
| "main_loop sh (now # clock) w =
     (case iteration sh now w of
        (Inl e, w', ev) \<Rightarrow> (Inl e, w', ev)
      | (Inr u, w', ev) \<Rightarrow>
          (case main_loop sh clock w' of (r, w'', ev') \<Rightarrow> (r, w'', ev @ ev')))"

definition main :: "'w shell \<Rightarrow> datetime list \<Rightarrow> 'w \<Rightarrow> (unit, 'w) outcome" where
  "main sh clock w =
     (case main_loop sh clock w of (r, w', ev) \<Rightarrow> (r, w', Stdout Started # ev))"

subsection \<open>Reading an event list\<close>

text \<open>The state-changing commands among the events: every command but the query.\<close>

fun state_changing_cmds :: "event list \<Rightarrow> string list list" where
  "state_changing_cmds [] = []"
| "state_changing_cmds (Exec c # ev) =
     (if c = SHOW_CMD then state_changing_cmds ev else c # state_changing_cmds ev)"
| "state_changing_cmds (e # ev) = state_changing_cmds ev"

definition applies :: "event list \<Rightarrow> nat" where
  "applies ev = count_list ev (Exec IMPAIR_CMD)"

definition removals :: "event list \<Rightarrow> nat" where
  "removals ev = count_list ev (Exec HEAL_CMD)"

fun is_stderr :: "event \<Rightarrow> bool" where
  "is_stderr (Stderr m) = True"
| "is_stderr e = False"

fun sleeps :: "event list \<Rightarrow> real list" where
  "sleeps [] = []"
| "sleeps (Sleep d # ev) = d # sleeps ev"
| "sleeps (e # ev) = sleeps ev"

text \<open>Two calls in a row of a function that takes no argument: \<^verbatim>\<open>f(); f()\<close>.\<close>

definition twice :: "('w \<Rightarrow> (unit, 'w) outcome) \<Rightarrow> 'w \<Rightarrow> (unit, 'w) outcome" where
  "twice f w =
     (case f w of
        (Inl e, w1, ev1) \<Rightarrow> (Inl e, w1, ev1)
      | (Inr u, w1, ev1) \<Rightarrow> (case f w1 of (r, w2, ev2) \<Rightarrow> (r, w2, ev1 @ ev2)))"

subsection \<open>Machines\<close>

text \<open>
  A machine on which nothing but the script touches the interface and \<^verbatim>\<open>tc\<close> does its
  work: \<open>present w\<close> says whether the impairment is configured in state \<open>w\<close>; the query
  succeeds, leaves the state alone and prints \<^verbatim>\<open>netem\<close> exactly when it is configured;
  the apply command on a clean interface succeeds and configures it; the removal on an
  impaired interface succeeds and cleans it.
\<close>

definition well_behaved :: "'w shell \<Rightarrow> ('w \<Rightarrow> bool) \<Rightarrow> bool" where
  "well_behaved sh present \<longleftrightarrow>
     (\<forall>w. \<exists>out. sh SHOW_CMD w = (Exited 0 (Text out), w) \<and> sublist ''netem'' out = present w) \<and>
     (\<forall>w. \<not> present w \<longrightarrow> (\<exists>out w'. sh IMPAIR_CMD w = (Exited 0 out, w') \<and> present w')) \<and>
     (\<forall>w. present w \<longrightarrow> (\<exists>out w'. sh HEAL_CMD w = (Exited 0 out, w') \<and> \<not> present w'))"

text \<open>A machine none of whose commands fails to start.\<close>

definition always_launches :: "'w shell \<Rightarrow> bool" where
  "always_launches sh \<longleftrightarrow> (\<forall>cmd w. fst (sh cmd w) \<noteq> LaunchError)"

text \<open>A machine on which the output of the query, whenever the query runs, decodes.\<close>

definition query_decodes :: "'w shell \<Rightarrow> bool" where
  "query_decodes sh \<longleftrightarrow> (\<forall>w rc. fst (sh SHOW_CMD w) \<noteq> Exited rc Undecodable)"

text \<open>
  Machines to run the script on. The state of the first three is whether the impairment is
  configured. \<open>tc_machine\<close> is \<^verbatim>\<open>tc\<close> run as root: adding over an existing root qdisc and
  deleting a missing one end with code 2. On \<open>tc_refusing rc\<close> the query works and every
  change ends with code \<open>rc\<close> and changes nothing, as for a user without the privilege to
  change the interface. On \<open>tc_failing rc\<close> every command, the query too, ends with code
  \<open>rc\<close> and changes nothing. On \<open>tc_garbled rc\<close> the query ends with code \<open>rc\<close> after
  writing bytes that do not decode, and the changes work as on \<open>tc_machine\<close>. On
  \<open>tc_missing\<close> the program cannot be started.
\<close>

definition tc_show_output :: "bool \<Rightarrow> string" where
  "tc_show_output netem =
     (if netem then ''qdisc netem 8001: root refcnt 2 limit 1000 delay 520ms loss 1%''
      else ''qdisc fq_codel 0: root refcnt 2 limit 10240p'')"

definition tc_machine :: "bool shell" where
  "tc_machine cmd netem =
     (if cmd = SHOW_CMD then (Exited 0 (Text (tc_show_output netem)), netem)
      else if cmd = IMPAIR_CMD then
        (if netem then (Exited 2 (Text []), netem) else (Exited 0 (Text []), True))
      else if cmd = HEAL_CMD then
        (if netem then (Exited 0 (Text []), False) else (Exited 2 (Text []), netem))
      else (Exited 1 (Text []), netem))"

definition tc_refusing :: "int \<Rightarrow> bool shell" where
  "tc_refusing rc cmd netem =
     (if cmd = SHOW_CMD then (Exited 0 (Text (tc_show_output netem)), netem)
      else (Exited rc (Text []), netem))"

definition tc_failing :: "int \<Rightarrow> bool shell" where
  "tc_failing rc cmd netem = (Exited rc (Text []), netem)"

definition tc_garbled :: "int \<Rightarrow> bool shell" where
  "tc_garbled rc cmd netem =
     (if cmd = SHOW_CMD then (Exited rc Undecodable, netem) else tc_machine cmd netem)"

definition tc_missing :: "unit shell" where
  "tc_missing cmd w = (LaunchError, w)"

section \<open>Facts about datetimes\<close>

lemma dt_sub_instant: "dt_sub a b = instant a - instant b"
  by (simp add: dt_sub_def instant_def secs_of_day_def algebra_simps)

lemma replace_start:
  "replace_time now HEALTHY_START_HOUR 0 0 0 = window_start_on (day now)"
  by (simp add: replace_time_def window_start_on_def)

lemma replace_end:
  "replace_time now HEALTHY_END_HOUR 0 0 0 = window_end_on (day now)"
  by (simp add: replace_time_def window_end_on_def)

lemma lex_step:
  fixes q r q' r' m :: int
  assumes "0 \<le> r" "r < m" "0 \<le> r'" "r' < m"
  shows "q * m + r < q' * m + r' \<longleftrightarrow> q < q' \<or> (q = q' \<and> r < r')"
proof (cases "q < q'")
  case True
  then have "q + 1 \<le> q'" by simp
  moreover have "0 \<le> m" using assms by linarith
  ultimately have "(q + 1) * m \<le> q' * m" by (rule mult_right_mono)
  then have "q * m + m \<le> q' * m" by (simp add: algebra_simps)
  with assms True show ?thesis by linarith
next
  case False
  show ?thesis
  proof (cases "q = q'")
    case True
    then show ?thesis by simp
  next
    case ne: False
    with False have "q' + 1 \<le> q" by simp
    moreover have "0 \<le> m" using assms by linarith
    ultimately have "(q' + 1) * m \<le> q * m" by (rule mult_right_mono)
    then have "q' * m + m \<le> q * m" by (simp add: algebra_simps)
    with assms False ne show ?thesis by linarith
  qed
qed

lemma lex_eq:
  fixes q r q' r' m :: int
  assumes "0 \<le> r" "r < m" "0 \<le> r'" "r' < m"
  shows "q * m + r = q' * m + r' \<longleftrightarrow> q = q' \<and> r = r'"
  using lex_step [OF assms, of q q'] lex_step [OF assms(3,4,1,2), of q' q] by linarith

lemma instant_nested:
  "instant t = (((day t * 24 + hour t) * 60 + minute t) * 60 + second t) * 1000000 + microsecond t"
  by (simp add: instant_def algebra_simps)

lemma dt_less_instant:
  assumes "valid_datetime a" "valid_datetime b"
  shows "dt_less a b \<longleftrightarrow> instant a < instant b"
proof -
  have us: "0 \<le> microsecond a" "microsecond a < 1000000" "0 \<le> microsecond b" "microsecond b < 1000000"
    and s: "0 \<le> second a" "second a < 60" "0 \<le> second b" "second b < 60"
    and m: "0 \<le> minute a" "minute a < 60" "0 \<le> minute b" "minute b < 60"
    and h: "0 \<le> hour a" "hour a < 24" "0 \<le> hour b" "hour b < 24"
    using assms by (simp_all add: valid_datetime_def)
  show ?thesis
    unfolding instant_nested dt_less_def lex_step [OF us] lex_eq [OF s] lex_step [OF s]
      lex_eq [OF m] lex_step [OF m] lex_eq [OF h] lex_step [OF h]
    by blast
qed

lemma instant_inj:
  assumes "valid_datetime a" "valid_datetime b" "instant a = instant b"
  shows "day a = day b \<and> hour a = hour b \<and> minute a = minute b \<and> second a = second b \<and>
      microsecond a = microsecond b"
proof -
  have "\<not> dt_less a b" "\<not> dt_less b a"
    using assms by (simp_all add: dt_less_instant)
  then show ?thesis unfolding dt_less_def by (metis linorder_neqE_linordered_idom)
qed

lemma dt_le_instant:
  assumes "valid_datetime a" "valid_datetime b"
  shows "dt_le a b \<longleftrightarrow> instant a \<le> instant b"
proof
  assume "dt_le a b"
  then show "instant a \<le> instant b"
    unfolding dt_le_def using dt_less_instant [OF assms] by (auto simp: instant_def)
next
  assume le: "instant a \<le> instant b"
  show "dt_le a b"
  proof (cases "instant a < instant b")
    case True
    then show ?thesis by (simp add: dt_le_def dt_less_instant [OF assms])
  next
    case False
    with le have "instant a = instant b" by simp
    from instant_inj [OF assms this] show ?thesis by (simp add: dt_le_def)
  qed
qed

lemma valid_window_start: "valid_datetime (window_start_on d)"
  by (simp add: valid_datetime_def window_start_on_def HEALTHY_START_HOUR_def)

lemma valid_window_end: "valid_datetime (window_end_on d)"
  by (simp add: valid_datetime_def window_end_on_def HEALTHY_END_HOUR_def)

lemma add_one_day_window_start: "add_one_day (window_start_on d) = window_start_on (d + 1)"
  by (simp add: add_one_day_def window_start_on_def)

section \<open>Facts about the commands and the machines\<close>

lemma cmds_distinct:
  "SHOW_CMD \<noteq> IMPAIR_CMD" "SHOW_CMD \<noteq> HEAL_CMD" "IMPAIR_CMD \<noteq> HEAL_CMD"
  "IMPAIR_CMD \<noteq> SHOW_CMD" "HEAL_CMD \<noteq> SHOW_CMD" "HEAL_CMD \<noteq> IMPAIR_CMD"
  by (simp_all add: SHOW_CMD_def IMPAIR_CMD_def HEAL_CMD_def)

lemma show_True: "sublist ''netem'' (tc_show_output True)"
  by (simp add: tc_show_output_def sublist_code)

lemma show_False: "\<not> sublist ''netem'' (tc_show_output False)"
  by (simp add: tc_show_output_def sublist_code)

lemma show_iff: "sublist ''netem'' (tc_show_output b) = b"
  using show_True show_False by (cases b) simp_all

lemma has_netem_Exited:
  "sh SHOW_CMD w = (Exited rc (Text out), w') \<Longrightarrow>
   has_netem sh w = (Inr (rc = 0 \<and> sublist ''netem'' out), w', [Exec SHOW_CMD])"
  by (simp add: has_netem_def check_output_def)

lemma has_netem_LaunchError:
  "sh SHOW_CMD w = (LaunchError, w') \<Longrightarrow> has_netem sh w = (Inl OSError, w', [Exec SHOW_CMD])"
  by (simp add: has_netem_def check_output_def)

lemma has_netem_Undecodable:
  "sh SHOW_CMD w = (Exited rc Undecodable, w') \<Longrightarrow>
   has_netem sh w = (Inl UnicodeDecodeError, w', [Exec SHOW_CMD])"
  by (simp add: has_netem_def check_output_def)

lemma has_netem_events: "snd (snd (has_netem sh w)) = [Exec SHOW_CMD]"
  by (simp add: has_netem_def check_output_def
      split: prod.split proc_result.split proc_output.split)

lemma impair_present:
  "has_netem sh w = (Inr True, w1, ev1) \<Longrightarrow> impair sh w = (Inr (), w1, ev1)"
  by (simp add: impair_def)

lemma impair_absent_Exited:
  assumes "has_netem sh w = (Inr False, w1, ev1)" "sh IMPAIR_CMD w1 = (Exited rc out, w2)"
  shows "impair sh w = (Inr (), w2, ev1 @ [Stdout Applying, Exec IMPAIR_CMD] @
      (if rc \<noteq> 0 then [Stderr (ApplyFailed (CalledProcessError rc))] else []))"
proof (cases "rc = 0")
  case True
  with assms(2) have "run sh IMPAIR_CMD w1 = (Inr (), w2, [Exec IMPAIR_CMD])"
    by (simp add: run_def)
  with assms(1) True show ?thesis by (simp add: impair_def)
next
  case False
  with assms(2) have "run sh IMPAIR_CMD w1 = (Inl (CalledProcessError rc), w2, [Exec IMPAIR_CMD])"
    by (simp add: run_def)
  with assms(1) False show ?thesis by (simp add: impair_def)
qed

lemma impair_absent_LaunchError:
  assumes "has_netem sh w = (Inr False, w1, ev1)" "sh IMPAIR_CMD w1 = (LaunchError, w2)"
  shows "impair sh w = (Inl OSError, w2, ev1 @ [Stdout Applying, Exec IMPAIR_CMD])"
proof -
  from assms(2) have "run sh IMPAIR_CMD w1 = (Inl OSError, w2, [Exec IMPAIR_CMD])"
    by (simp add: run_def)
  with assms(1) show ?thesis by (simp add: impair_def)
qed

lemma impair_crashed:
  "has_netem sh w = (Inl e, w1, ev1) \<Longrightarrow> impair sh w = (Inl e, w1, ev1)"
  by (simp add: impair_def)

lemma heal_absent:
  "has_netem sh w = (Inr False, w1, ev1) \<Longrightarrow> heal sh w = (Inr (), w1, ev1)"
  by (simp add: heal_def)

lemma heal_present_Exited:
  assumes "has_netem sh w = (Inr True, w1, ev1)" "sh HEAL_CMD w1 = (Exited rc out, w2)"
  shows "heal sh w = (Inr (), w2, ev1 @ [Stdout Removing, Exec HEAL_CMD] @
      (if rc \<noteq> 0 \<and> rc \<noteq> 2 then [Stderr (RemoveFailed (CalledProcessError rc))] else []))"
proof (cases "rc = 0")
  case True
  with assms(2) have "run sh HEAL_CMD w1 = (Inr (), w2, [Exec HEAL_CMD])"
    by (simp add: run_def)
  with assms(1) True show ?thesis by (simp add: heal_def)
next
  case False
  with assms(2) have "run sh HEAL_CMD w1 = (Inl (CalledProcessError rc), w2, [Exec HEAL_CMD])"
    by (simp add: run_def)
  with assms(1) False show ?thesis by (simp add: heal_def)
qed

lemma heal_crashed:
  "has_netem sh w = (Inl e, w1, ev1) \<Longrightarrow> heal sh w = (Inl e, w1, ev1)"
  by (simp add: heal_def)

lemma tc_machine_show: "tc_machine SHOW_CMD b = (Exited 0 (Text (tc_show_output b)), b)"
  by (simp add: tc_machine_def)

lemma tc_machine_add: "tc_machine IMPAIR_CMD b = (if b then (Exited 2 (Text []), b) else (Exited 0 (Text []), True))"
  by (simp add: tc_machine_def cmds_distinct)

lemma tc_machine_del: "tc_machine HEAL_CMD b = (if b then (Exited 0 (Text []), False) else (Exited 2 (Text []), b))"
  by (simp add: tc_machine_def cmds_distinct)

lemma has_netem_tc_machine: "has_netem tc_machine b = (Inr b, b, [Exec SHOW_CMD])"
  using has_netem_Exited [of tc_machine b 0 "tc_show_output b" b]
  by (simp add: tc_machine_show show_iff)

lemma impair_tc_machine_clean:
  "impair tc_machine False = (Inr (), True, [Exec SHOW_CMD, Stdout Applying, Exec IMPAIR_CMD])"
  using impair_absent_Exited [of tc_machine False False "[Exec SHOW_CMD]" 0 "Text []" True]
  by (simp add: has_netem_tc_machine tc_machine_add)

lemma impair_tc_machine_impaired:
  "impair tc_machine True = (Inr (), True, [Exec SHOW_CMD])"
  using impair_present [of tc_machine True True "[Exec SHOW_CMD]"]
  by (simp add: has_netem_tc_machine)

lemma heal_tc_machine_impaired:
  "heal tc_machine True = (Inr (), False, [Exec SHOW_CMD, Stdout Removing, Exec HEAL_CMD])"
  using heal_present_Exited [of tc_machine True True "[Exec SHOW_CMD]" 0 "Text []" False]
  by (simp add: has_netem_tc_machine tc_machine_del)

lemma heal_tc_machine_clean:
  "heal tc_machine False = (Inr (), False, [Exec SHOW_CMD])"
  using heal_absent [of tc_machine False False "[Exec SHOW_CMD]"]
  by (simp add: has_netem_tc_machine)

lemma impaired_branch_ok:
  assumes "impair sh w = (Inr (), w', ev)"
  shows "impaired_branch sh now w =
     (Inr (), w', ev @ [Sleep (min (total_seconds (dt_sub
        (if dt_le (window_start_on (day now)) now then window_start_on (day now + 1)
         else window_start_on (day now)) now)) CHECK_INTERVAL)])"
  using assms by (simp add: impaired_branch_def replace_start add_one_day_window_start Let_def)

lemma healthy_branch_ok:
  assumes "heal sh w = (Inr (), w', ev)"
  shows "healthy_branch sh now w =
     (if dt_le (window_end_on (day now)) now then (Inr (), w', ev @ [Sleep CHECK_INTERVAL])
      else (Inr (), w', ev @
         [Stdout (HealthySleeping (py_int (total_seconds (dt_sub (window_end_on (day now)) now)))),
          Sleep (total_seconds (dt_sub (window_end_on (day now)) now) + 1)]))"
  using assms by (simp add: healthy_branch_def replace_end Let_def)

lemma next_day_start_later:
  assumes "valid_datetime now"
  shows "instant now < instant (window_start_on (day now + 1))"
  using assms
  by (simp add: valid_datetime_def instant_def window_start_on_def HEALTHY_START_HOUR_def)

lemma total_seconds_pos: "0 < total_seconds td \<longleftrightarrow> 0 < td"
  by (simp add: total_seconds_def)

lemma total_seconds_diff: "total_seconds (a - b) = total_seconds a - total_seconds b"
  by (simp add: total_seconds_def diff_divide_distrib)

lemma sleeps_append: "sleeps (a @ b) = sleeps a @ sleeps b"
  by (induction a rule: sleeps.induct) simp_all

lemma well_behaved_has_netem:
  assumes "well_behaved sh present"
  shows "has_netem sh w = (Inr (present w), w, [Exec SHOW_CMD])"
proof -
  from assms obtain out where
    "sh SHOW_CMD w = (Exited 0 (Text out), w)" "sublist ''netem'' out = present w"
    unfolding well_behaved_def by blast
  with has_netem_Exited [of sh w 0 out w] show ?thesis by simp
qed

lemma well_behaved_impair:
  assumes "well_behaved sh present"
  shows "\<exists>w'. present w' \<and> impair sh w =
           (Inr (), w', if present w then [Exec SHOW_CMD]
                        else [Exec SHOW_CMD, Stdout Applying, Exec IMPAIR_CMD])"
proof (cases "present w")
  case True
  with well_behaved_has_netem [OF assms, of w]
  have "has_netem sh w = (Inr True, w, [Exec SHOW_CMD])" by simp
  from impair_present [of sh w w "[Exec SHOW_CMD]", OF this] True show ?thesis by auto
next
  case False
  with well_behaved_has_netem [OF assms, of w]
  have hn: "has_netem sh w = (Inr False, w, [Exec SHOW_CMD])" by simp
  from assms False obtain out w' where ok: "sh IMPAIR_CMD w = (Exited 0 out, w')" "present w'"
    unfolding well_behaved_def by blast
  from impair_absent_Exited [of sh w w "[Exec SHOW_CMD]" 0 out w', OF hn ok(1)] ok(2) False
  show ?thesis by auto
qed

lemma well_behaved_heal:
  assumes "well_behaved sh present"
  shows "\<exists>w'. \<not> present w' \<and> heal sh w =
           (Inr (), w', if present w then [Exec SHOW_CMD, Stdout Removing, Exec HEAL_CMD]
                        else [Exec SHOW_CMD])"
proof (cases "present w")
  case False
  with well_behaved_has_netem [OF assms, of w]
  have "has_netem sh w = (Inr False, w, [Exec SHOW_CMD])" by simp
  from heal_absent [of sh w w "[Exec SHOW_CMD]", OF this] False show ?thesis by auto
next
  case True
  with well_behaved_has_netem [OF assms, of w]
  have hn: "has_netem sh w = (Inr True, w, [Exec SHOW_CMD])" by simp
  from assms True obtain out w' where ok: "sh HEAL_CMD w = (Exited 0 out, w')" "\<not> present w'"
    unfolding well_behaved_def by blast
  from heal_present_Exited [of sh w w "[Exec SHOW_CMD]" 0 out w', OF hn ok(1)] ok(2) True
  show ?thesis by auto
qed

lemma has_netem_events_eq:
  assumes "has_netem sh w = (r, w1, ev1)"
  shows "ev1 = [Exec SHOW_CMD]"
  using has_netem_events [of sh w] assms by simp

lemma impair_absent_events:
  assumes "has_netem sh w = (Inr False, w1, ev1)"
  shows "state_changing_cmds (snd (snd (impair sh w))) = [IMPAIR_CMD] \<and>
         applies (snd (snd (impair sh w))) = 1"
proof -
  have ev1: "ev1 = [Exec SHOW_CMD]" by (rule has_netem_events_eq [OF assms])
  show ?thesis
  proof (cases "sh IMPAIR_CMD w1")
    case (Pair r w2)
    show ?thesis
    proof (cases r)
      case (Exited rc out)
      with Pair have "sh IMPAIR_CMD w1 = (Exited rc out, w2)" by simp
      from impair_absent_Exited [of sh w w1 ev1 rc out w2, OF assms this] ev1
      show ?thesis by (simp add: applies_def cmds_distinct)
    next
      case LaunchError
      with Pair have "sh IMPAIR_CMD w1 = (LaunchError, w2)" by simp
      from impair_absent_LaunchError [of sh w w1 ev1 w2, OF assms this] ev1
      show ?thesis by (simp add: applies_def cmds_distinct)
    qed
  qed
qed

lemma twice_impair_well_behaved:
  assumes "well_behaved sh present"
  shows "\<exists>w'. twice (impair sh) w =
           (Inr (), w', if present w then [Exec SHOW_CMD, Exec SHOW_CMD]
                        else [Exec SHOW_CMD, Stdout Applying, Exec IMPAIR_CMD, Exec SHOW_CMD])"
proof -
  from well_behaved_impair [OF assms, of w] obtain w1 where
    1: "present w1" "impair sh w = (Inr (), w1, if present w then [Exec SHOW_CMD]
                        else [Exec SHOW_CMD, Stdout Applying, Exec IMPAIR_CMD])" by blast
  from well_behaved_impair [OF assms, of w1] 1(1) obtain w2 where
    2: "impair sh w1 = (Inr (), w2, [Exec SHOW_CMD])" by auto
  from 1(2) 2 show ?thesis by (simp add: twice_def)
qed

lemma twice_heal_well_behaved:
  assumes "well_behaved sh present"
  shows "\<exists>w'. twice (heal sh) w =
           (Inr (), w', if present w then [Exec SHOW_CMD, Stdout Removing, Exec HEAL_CMD, Exec SHOW_CMD]
                        else [Exec SHOW_CMD, Exec SHOW_CMD])"
proof -
  from well_behaved_heal [OF assms, of w] obtain w1 where
    1: "\<not> present w1" "heal sh w = (Inr (), w1, if present w then [Exec SHOW_CMD, Stdout Removing, Exec HEAL_CMD]
                        else [Exec SHOW_CMD])" by blast
  from well_behaved_heal [OF assms, of w1] 1(1) obtain w2 where
    2: "heal sh w1 = (Inr (), w2, [Exec SHOW_CMD])" by auto
  from 1(2) 2 show ?thesis by (simp add: twice_def)
qed

lemma tc_refusing_show: "tc_refusing rc SHOW_CMD b = (Exited 0 (Text (tc_show_output b)), b)"
  by (simp add: tc_refusing_def)

lemma tc_refusing_add: "tc_refusing rc IMPAIR_CMD b = (Exited rc (Text []), b)"
  by (simp add: tc_refusing_def cmds_distinct)

lemma tc_refusing_del: "tc_refusing rc HEAL_CMD b = (Exited rc (Text []), b)"
  by (simp add: tc_refusing_def cmds_distinct)

lemma has_netem_tc_refusing: "has_netem (tc_refusing rc) b = (Inr b, b, [Exec SHOW_CMD])"
  using has_netem_Exited [of "tc_refusing rc" b 0 "tc_show_output b" b]
  by (simp add: tc_refusing_show show_iff)

lemma impair_tc_refusing:
  "impair (tc_refusing rc) False =
     (Inr (), False, [Exec SHOW_CMD, Stdout Applying, Exec IMPAIR_CMD] @
        (if rc \<noteq> 0 then [Stderr (ApplyFailed (CalledProcessError rc))] else []))"
  using impair_absent_Exited [of "tc_refusing rc" False False "[Exec SHOW_CMD]" rc "Text []" False]
  by (simp add: has_netem_tc_refusing tc_refusing_add)

lemma heal_tc_refusing:
  "heal (tc_refusing rc) True =
     (Inr (), True, [Exec SHOW_CMD, Stdout Removing, Exec HEAL_CMD] @
        (if rc \<noteq> 0 \<and> rc \<noteq> 2 then [Stderr (RemoveFailed (CalledProcessError rc))] else []))"
  using heal_present_Exited [of "tc_refusing rc" True True "[Exec SHOW_CMD]" rc "Text []" True]
  by (simp add: has_netem_tc_refusing tc_refusing_del)

lemma well_behaved_tc_machine: "well_behaved tc_machine (\<lambda>netem. netem)"
  by (auto simp: well_behaved_def tc_machine_show tc_machine_add tc_machine_del show_iff)

lemma tc_missing_has_netem: "has_netem tc_missing w = (Inl OSError, w, [Exec SHOW_CMD])"
  using has_netem_LaunchError [of tc_missing w w] by (simp add: tc_missing_def)

lemma tc_failing_eq: "tc_failing rc cmd b = (Exited rc (Text []), b)"
  by (simp add: tc_failing_def)

lemma always_launches_Exited:
  assumes "always_launches sh"
  obtains rc out w' where "sh cmd w = (Exited rc out, w')"
proof (cases "sh cmd w")
  case (Pair r w')
  from assms have "fst (sh cmd w) \<noteq> LaunchError" by (simp add: always_launches_def)
  with Pair obtain rc out where "r = Exited rc out" by (cases r) simp_all
  with Pair that show ?thesis by simp
qed

lemma always_launches_has_netem:
  assumes "always_launches sh" and "query_decodes sh"
  obtains b w' where "has_netem sh w = (Inr b, w', [Exec SHOW_CMD])"
proof -
  from always_launches_Exited [OF assms(1), of SHOW_CMD w] obtain rc out w'
    where q: "sh SHOW_CMD w = (Exited rc out, w')" by blast
  from assms(2) have "fst (sh SHOW_CMD w) \<noteq> Exited rc Undecodable"
    by (simp add: query_decodes_def)
  with q obtain decoded where "out = Text decoded" by (cases out) simp_all
  with q have "sh SHOW_CMD w = (Exited rc (Text decoded), w')" by simp
  from has_netem_Exited [of sh w rc decoded w', OF this] that show ?thesis by blast
qed

lemma always_launches_impair:
  assumes "always_launches sh" and "query_decodes sh"
  obtains w' ev where "impair sh w = (Inr (), w', ev)" "sleeps ev = []"
proof -
  from always_launches_has_netem [OF assms, of w] obtain b w1
    where hn: "has_netem sh w = (Inr b, w1, [Exec SHOW_CMD])" by blast
  show ?thesis
  proof (cases b)
    case True
    with hn impair_present [of sh w w1 "[Exec SHOW_CMD]"]
    have "impair sh w = (Inr (), w1, [Exec SHOW_CMD])" by simp
    then show ?thesis using that by simp
  next
    case False
    from always_launches_Exited [OF assms(1), of IMPAIR_CMD w1] obtain rc out w2
      where "sh IMPAIR_CMD w1 = (Exited rc out, w2)" by blast
    with False hn impair_absent_Exited [of sh w w1 "[Exec SHOW_CMD]" rc out w2]
    have "impair sh w = (Inr (), w2, [Exec SHOW_CMD] @ [Stdout Applying, Exec IMPAIR_CMD] @
      (if rc \<noteq> 0 then [Stderr (ApplyFailed (CalledProcessError rc))] else []))" by simp
    then show ?thesis using that by (cases "rc = 0") simp_all
  qed
qed

lemma always_launches_heal:
  assumes "always_launches sh" and "query_decodes sh"
  obtains w' ev where "heal sh w = (Inr (), w', ev)" "sleeps ev = []"
proof -
  from always_launches_has_netem [OF assms, of w] obtain b w1
    where hn: "has_netem sh w = (Inr b, w1, [Exec SHOW_CMD])" by blast
  show ?thesis
  proof (cases b)
    case False
    with hn heal_absent [of sh w w1 "[Exec SHOW_CMD]"]
    have "heal sh w = (Inr (), w1, [Exec SHOW_CMD])" by simp
    then show ?thesis using that by simp
  next
    case True
    from always_launches_Exited [OF assms(1), of HEAL_CMD w1] obtain rc out w2
      where "sh HEAL_CMD w1 = (Exited rc out, w2)" by blast
    with True hn heal_present_Exited [of sh w w1 "[Exec SHOW_CMD]" rc out w2]
    have "heal sh w = (Inr (), w2, [Exec SHOW_CMD] @ [Stdout Removing, Exec HEAL_CMD] @
      (if rc \<noteq> 0 \<and> rc \<noteq> 2 then [Stderr (RemoveFailed (CalledProcessError rc))] else []))" by simp
    then show ?thesis using that by (cases "rc \<noteq> 0 \<and> rc \<noteq> 2") simp_all
  qed
qed

lemma always_launches_iteration:
  assumes "always_launches sh" and "query_decodes sh"
  shows "fst (iteration sh now w) = Inr () \<and> length (sleeps (snd (snd (iteration sh now w)))) = 1"
proof (cases "in_healthy_window now")
  case True
  from always_launches_heal [OF assms, of w] obtain w' ev
    where h: "heal sh w = (Inr (), w', ev)" "sleeps ev = []" by blast
  from healthy_branch_ok [of sh w w' ev now, OF h(1)] h(2) True
  show ?thesis by (simp add: iteration_def sleeps_append)
next
  case False
  from always_launches_impair [OF assms, of w] obtain w' ev
    where h: "impair sh w = (Inr (), w', ev)" "sleeps ev = []" by blast
  from impaired_branch_ok [of sh w w' ev now, OF h(1)] h(2) False
  show ?thesis by (simp add: iteration_def sleeps_append)
qed

lemma always_launches_main_loop:
  assumes "always_launches sh" and "query_decodes sh"
  shows "fst (main_loop sh clock w) = Inr () \<and>
         length (sleeps (snd (snd (main_loop sh clock w)))) = length clock"
proof (induction clock arbitrary: w)
  case Nil
  show ?case by simp
next
  case (Cons now clock)
  obtain r w' ev where it: "iteration sh now w = (r, w', ev)" by (cases "iteration sh now w") auto
  with always_launches_iteration [OF assms, of now w]
  have r: "r = Inr ()" and ev: "length (sleeps ev) = 1" by simp_all
  obtain r2 w2 ev2 where ml: "main_loop sh clock w' = (r2, w2, ev2)"
    by (cases "main_loop sh clock w'") auto
  with Cons.IH [of w'] have "r2 = Inr ()" "length (sleeps ev2) = length clock" by simp_all
  with it r ev ml show ?case by (simp add: sleeps_append)
qed

lemma always_launches_tc_failing: "always_launches (tc_failing rc)"
  by (simp add: always_launches_def tc_failing_def)

lemma has_netem_tc_failing:
  "rc \<noteq> 0 \<Longrightarrow> has_netem (tc_failing rc) b = (Inr False, b, [Exec SHOW_CMD])"
  using has_netem_Exited [of "tc_failing rc" b rc "[]" b] by (simp add: tc_failing_eq)

lemma impair_tc_failing:
  assumes "rc \<noteq> 0"
  shows "impair (tc_failing rc) b =
     (Inr (), b, [Exec SHOW_CMD, Stdout Applying, Exec IMPAIR_CMD,
                  Stderr (ApplyFailed (CalledProcessError rc))])"
  using impair_absent_Exited [of "tc_failing rc" b b "[Exec SHOW_CMD]" rc "Text []" b] assms
  by (simp add: has_netem_tc_failing tc_failing_eq)

lemma heal_tc_failing:
  assumes "rc \<noteq> 0"
  shows "heal (tc_failing rc) b = (Inr (), b, [Exec SHOW_CMD])"
  using heal_absent [of "tc_failing rc" b b "[Exec SHOW_CMD]"] assms
  by (simp add: has_netem_tc_failing)

lemma iteration_tc_failing_0259:
  "iteration (tc_failing 1) \<lparr>day = 739924, hour = 2, minute = 59, second = 31, microsecond = 0\<rparr> True =
     (Inr (), True, [Exec SHOW_CMD, Stdout Applying, Exec IMPAIR_CMD,
                     Stderr (ApplyFailed (CalledProcessError 1)), Sleep 29])"
  using impaired_branch_ok [of "tc_failing 1" True True
      "[Exec SHOW_CMD, Stdout Applying, Exec IMPAIR_CMD, Stderr (ApplyFailed (CalledProcessError 1))]"
      "\<lparr>day = 739924, hour = 2, minute = 59, second = 31, microsecond = 0\<rparr>"]
  by (simp add: impair_tc_failing iteration_def in_healthy_window_def HEALTHY_START_HOUR_def
      HEALTHY_END_HOUR_def dt_le_def dt_less_def window_start_on_def dt_sub_def secs_of_day_def
      total_seconds_def CHECK_INTERVAL_def)

lemma iteration_tc_failing_0300:
  "iteration (tc_failing 1) \<lparr>day = 739924, hour = 3, minute = 0, second = 0, microsecond = 0\<rparr> True =
     (Inr (), True, [Exec SHOW_CMD, Stdout (HealthySleeping 3600), Sleep 3601])"
  using healthy_branch_ok [of "tc_failing 1" True True "[Exec SHOW_CMD]"
      "\<lparr>day = 739924, hour = 3, minute = 0, second = 0, microsecond = 0\<rparr>"]
  by (simp add: heal_tc_failing iteration_def in_healthy_window_def HEALTHY_START_HOUR_def
      HEALTHY_END_HOUR_def dt_le_def dt_less_def window_end_on_def dt_sub_def secs_of_day_def
      total_seconds_def py_int_def)

lemma iteration_crashed:
  assumes "has_netem sh w = (Inl e, w1, ev1)"
  shows "iteration sh now w = (Inl e, w1, ev1)"
  using heal_crashed [of sh w e w1 ev1, OF assms] impair_crashed [of sh w e w1 ev1, OF assms]
  by (simp add: iteration_def healthy_branch_def impaired_branch_def)

lemma iteration_tc_missing:
  "iteration tc_missing now w = (Inl OSError, w, [Exec SHOW_CMD])"
  by (rule iteration_crashed [of tc_missing w OSError w "[Exec SHOW_CMD]" now,
        OF tc_missing_has_netem [of w]])

lemma tc_garbled_show: "tc_garbled rc SHOW_CMD b = (Exited rc Undecodable, b)"
  by (simp add: tc_garbled_def)

lemma has_netem_tc_garbled:
  "has_netem (tc_garbled rc) b = (Inl UnicodeDecodeError, b, [Exec SHOW_CMD])"
  by (rule has_netem_Undecodable [of "tc_garbled rc" b rc b, OF tc_garbled_show [of rc b]])

lemma iteration_tc_garbled:
  "iteration (tc_garbled rc) now b = (Inl UnicodeDecodeError, b, [Exec SHOW_CMD])"
  by (rule iteration_crashed [of "tc_garbled rc" b UnicodeDecodeError b "[Exec SHOW_CMD]" now,
        OF has_netem_tc_garbled [of rc b]])

lemma always_launches_tc_garbled: "always_launches (tc_garbled rc)"
  by (simp add: always_launches_def tc_garbled_def tc_machine_def)

lemma query_decodes_tc_failing: "query_decodes (tc_failing rc)"
  by (simp add: query_decodes_def tc_failing_def)

section \<open>The claims\<close>

subsection \<open>The policy\<close>

text \<open>
  Claim C1. For every UTC time \<open>t\<close>, the policy function says "healthy" exactly when
  \<open>HEALTHY_START_HOUR \<le> hour t < HEALTHY_END_HOUR\<close>: it does at the start hour, it does not
  at the end hour, and the loop body takes its healthy branch exactly then and its impaired
  branch otherwise.
\<close>

theorem in_healthy_window_iff:
  "(in_healthy_window t \<longleftrightarrow> HEALTHY_START_HOUR \<le> hour t \<and> hour t < HEALTHY_END_HOUR) \<and>
   (hour t = HEALTHY_START_HOUR \<longrightarrow> in_healthy_window t) \<and>
   (hour t = HEALTHY_END_HOUR \<longrightarrow> \<not> in_healthy_window t) \<and>
   iteration sh t w =
     (if HEALTHY_START_HOUR \<le> hour t \<and> hour t < HEALTHY_END_HOUR then healthy_branch sh t w
      else impaired_branch sh t w)"
  by (auto simp: in_healthy_window_def iteration_def HEALTHY_START_HOUR_def HEALTHY_END_HOUR_def)

theorem in_healthy_window_iff_witness:
  "hour \<lparr>day = 739924, hour = 3, minute = 0, second = 0, microsecond = 0\<rparr> = HEALTHY_START_HOUR \<and>
   in_healthy_window \<lparr>day = 739924, hour = 3, minute = 0, second = 0, microsecond = 0\<rparr> \<and>
   in_healthy_window \<lparr>day = 739924, hour = 3, minute = 59, second = 59, microsecond = 999999\<rparr> \<and>
   hour \<lparr>day = 739924, hour = 4, minute = 0, second = 0, microsecond = 0\<rparr> = HEALTHY_END_HOUR \<and>
   \<not> in_healthy_window \<lparr>day = 739924, hour = 4, minute = 0, second = 0, microsecond = 0\<rparr> \<and>
   \<not> in_healthy_window \<lparr>day = 739924, hour = 2, minute = 59, second = 59, microsecond = 999999\<rparr>"
  using in_healthy_window_iff [of "\<lparr>day = 739924, hour = 3, minute = 0, second = 0, microsecond = 0\<rparr>" tc_machine False]
    in_healthy_window_iff [of "\<lparr>day = 739924, hour = 3, minute = 59, second = 59, microsecond = 999999\<rparr>" tc_machine False]
    in_healthy_window_iff [of "\<lparr>day = 739924, hour = 4, minute = 0, second = 0, microsecond = 0\<rparr>" tc_machine False]
    in_healthy_window_iff [of "\<lparr>day = 739924, hour = 2, minute = 59, second = 59, microsecond = 999999\<rparr>" tc_machine False]
  by (simp add: HEALTHY_START_HOUR_def HEALTHY_END_HOUR_def)

subsection \<open>Sleeping outside the window\<close>

text \<open>
  Claim C3. Outside the healthy window, once \<^verbatim>\<open>impair()\<close> has returned, the pass sleeps
  for exactly the smaller of \<open>CHECK_INTERVAL\<close> and the time from \<open>now\<close> to the next boundary,
  where the boundary is today's start of the window if that is still in the future and
  tomorrow's start otherwise.
\<close>

theorem impaired_sleep_is_min:
  assumes "valid_datetime now" and "\<not> in_healthy_window now"
    and "impair sh w = (Inr (), w', ev)"
  shows "let today = window_start_on (day now);
             boundary = (if instant now < instant today then today
                         else window_start_on (day now + 1))
         in iteration sh now w =
              (Inr (), w', ev @ [Sleep (min (total_seconds (instant boundary - instant now))
                                          CHECK_INTERVAL)])"
proof -
  have it: "iteration sh now w = impaired_branch sh now w"
    using assms(2) by (simp add: iteration_def)
  have cmp: "dt_le (window_start_on (day now)) now \<longleftrightarrow>
             \<not> instant now < instant (window_start_on (day now))"
    unfolding dt_le_instant [OF valid_window_start [of "day now"] assms(1)] by (simp add: not_less)
  show ?thesis
  proof (cases "instant now < instant (window_start_on (day now))")
    case True
    with cmp have "\<not> dt_le (window_start_on (day now)) now" by simp
    with impaired_branch_ok [of sh w w' ev now, OF assms(3)] True it
    show ?thesis unfolding Let_def dt_sub_instant by simp
  next
    case False
    with cmp have "dt_le (window_start_on (day now)) now" by simp
    with impaired_branch_ok [of sh w w' ev now, OF assms(3)] False it
    show ?thesis unfolding Let_def dt_sub_instant by simp
  qed
qed

theorem impaired_sleep_is_min_witness:
  "valid_datetime \<lparr>day = 739924, hour = 2, minute = 59, second = 31, microsecond = 0\<rparr> \<and>
   \<not> in_healthy_window \<lparr>day = 739924, hour = 2, minute = 59, second = 31, microsecond = 0\<rparr> \<and>
   impair tc_machine False = (Inr (), True, [Exec SHOW_CMD, Stdout Applying, Exec IMPAIR_CMD]) \<and>
   iteration tc_machine \<lparr>day = 739924, hour = 2, minute = 59, second = 31, microsecond = 0\<rparr> False =
     (Inr (), True, [Exec SHOW_CMD, Stdout Applying, Exec IMPAIR_CMD, Sleep 29]) \<and>
   valid_datetime \<lparr>day = 739924, hour = 4, minute = 0, second = 0, microsecond = 0\<rparr> \<and>
   \<not> in_healthy_window \<lparr>day = 739924, hour = 4, minute = 0, second = 0, microsecond = 0\<rparr> \<and>
   impair tc_machine True = (Inr (), True, [Exec SHOW_CMD]) \<and>
   iteration tc_machine \<lparr>day = 739924, hour = 4, minute = 0, second = 0, microsecond = 0\<rparr> True =
     (Inr (), True, [Exec SHOW_CMD, Sleep 30])"
  using impaired_sleep_is_min [of "\<lparr>day = 739924, hour = 2, minute = 59, second = 31, microsecond = 0\<rparr>"
      tc_machine False True "[Exec SHOW_CMD, Stdout Applying, Exec IMPAIR_CMD]"]
    impaired_sleep_is_min [of "\<lparr>day = 739924, hour = 4, minute = 0, second = 0, microsecond = 0\<rparr>"
      tc_machine True True "[Exec SHOW_CMD]"]
  by (simp add: valid_datetime_def in_healthy_window_def HEALTHY_START_HOUR_def HEALTHY_END_HOUR_def
      impair_tc_machine_clean impair_tc_machine_impaired Let_def instant_def window_start_on_def
      total_seconds_def CHECK_INTERVAL_def)

text \<open>
  Claim C10. Outside the healthy window, for every valid \<open>now\<close>, the start of the window
  the pass computes (moved to tomorrow when today's is not in the future) is strictly later
  than \<open>now\<close>, and once \<^verbatim>\<open>impair()\<close> has returned the pass sleeps for a duration that is
  strictly positive and at most \<open>CHECK_INTERVAL\<close>.
\<close>

theorem impaired_sleep_bounds:
  assumes "valid_datetime now" and "\<not> in_healthy_window now"
    and "impair sh w = (Inr (), w', ev)"
  shows "let next_start0 = replace_time now HEALTHY_START_HOUR 0 0 0;
             next_start = (if dt_le next_start0 now then add_one_day next_start0 else next_start0)
         in instant now < instant next_start \<and>
            (\<exists>sleep_duration.
               iteration sh now w = (Inr (), w', ev @ [Sleep sleep_duration]) \<and>
               0 < sleep_duration \<and> sleep_duration \<le> CHECK_INTERVAL)"
proof -
  define next_start where "next_start =
    (if dt_le (window_start_on (day now)) now then window_start_on (day now + 1)
     else window_start_on (day now))"
  have cmp: "dt_le (window_start_on (day now)) now \<longleftrightarrow>
             instant (window_start_on (day now)) \<le> instant now"
    by (rule dt_le_instant [OF valid_window_start [of "day now"] assms(1)])
  have future: "instant now < instant next_start"
  proof (cases "dt_le (window_start_on (day now)) now")
    case True
    then show ?thesis using next_day_start_later [OF assms(1)] by (simp add: next_start_def)
  next
    case False
    with cmp show ?thesis by (simp add: next_start_def)
  qed
  then have pos: "0 < total_seconds (dt_sub next_start now)"
    by (simp add: total_seconds_pos dt_sub_instant)
  have it: "iteration sh now w =
      (Inr (), w', ev @ [Sleep (min (total_seconds (dt_sub next_start now)) CHECK_INTERVAL)])"
    using assms(2) impaired_branch_ok [of sh w w' ev now, OF assms(3)]
    by (simp add: iteration_def next_start_def)
  have "0 < min (total_seconds (dt_sub next_start now)) CHECK_INTERVAL"
    using pos by (simp add: CHECK_INTERVAL_def)
  moreover have "min (total_seconds (dt_sub next_start now)) CHECK_INTERVAL \<le> CHECK_INTERVAL"
    by simp
  ultimately have ex: "\<exists>sleep_duration.
       iteration sh now w = (Inr (), w', ev @ [Sleep sleep_duration]) \<and>
       0 < sleep_duration \<and> sleep_duration \<le> CHECK_INTERVAL"
    using it by blast
  have ns: "(if dt_le (replace_time now HEALTHY_START_HOUR 0 0 0) now
             then add_one_day (replace_time now HEALTHY_START_HOUR 0 0 0)
             else replace_time now HEALTHY_START_HOUR 0 0 0) = next_start"
    by (simp add: next_start_def replace_start add_one_day_window_start)
  from future ex show ?thesis unfolding Let_def ns by simp
qed

theorem impaired_sleep_bounds_witness:
  "valid_datetime \<lparr>day = 739924, hour = 2, minute = 59, second = 59, microsecond = 999999\<rparr> \<and>
   \<not> in_healthy_window \<lparr>day = 739924, hour = 2, minute = 59, second = 59, microsecond = 999999\<rparr> \<and>
   impair tc_machine True = (Inr (), True, [Exec SHOW_CMD]) \<and>
   (\<exists>d. iteration tc_machine
           \<lparr>day = 739924, hour = 2, minute = 59, second = 59, microsecond = 999999\<rparr> True =
           (Inr (), True, [Exec SHOW_CMD, Sleep d]) \<and> 0 < d \<and> d \<le> 30)"
  using impaired_sleep_bounds
      [of "\<lparr>day = 739924, hour = 2, minute = 59, second = 59, microsecond = 999999\<rparr>"
          tc_machine True True "[Exec SHOW_CMD]"]
  by (simp add: valid_datetime_def in_healthy_window_def HEALTHY_START_HOUR_def HEALTHY_END_HOUR_def
      impair_tc_machine_impaired Let_def CHECK_INTERVAL_def)

text \<open>
  Claim C8, as the claim states it, fails: at 23:50 UTC the pass is outside the window and
  its next boundary is tomorrow's 03:00, but that boundary is 11400 seconds away, not 27300.
\<close>

theorem late_evening_distance_counterexample:
  "\<not> in_healthy_window \<lparr>day = 739924, hour = 23, minute = 50, second = 0, microsecond = 0\<rparr> \<and>
   dt_le (replace_time \<lparr>day = 739924, hour = 23, minute = 50, second = 0, microsecond = 0\<rparr>
            HEALTHY_START_HOUR 0 0 0)
         \<lparr>day = 739924, hour = 23, minute = 50, second = 0, microsecond = 0\<rparr> \<and>
   total_seconds
     (dt_sub (add_one_day
                (replace_time \<lparr>day = 739924, hour = 23, minute = 50, second = 0, microsecond = 0\<rparr>
                   HEALTHY_START_HOUR 0 0 0))
             \<lparr>day = 739924, hour = 23, minute = 50, second = 0, microsecond = 0\<rparr>) = 11400 \<and>
   total_seconds
     (dt_sub (add_one_day
                (replace_time \<lparr>day = 739924, hour = 23, minute = 50, second = 0, microsecond = 0\<rparr>
                   HEALTHY_START_HOUR 0 0 0))
             \<lparr>day = 739924, hour = 23, minute = 50, second = 0, microsecond = 0\<rparr>) \<noteq> 27300"
  by (simp add: in_healthy_window_def HEALTHY_START_HOUR_def HEALTHY_END_HOUR_def dt_le_def
      dt_less_def replace_time_def add_one_day_def dt_sub_def secs_of_day_def total_seconds_def)

text \<open>
  Claim C8, amended. At 23:50:00 UTC of any day the pass is outside the window, today's
  03:00 is not in the future, the next boundary is tomorrow's 03:00, which is 11400 seconds
  away, and once \<^verbatim>\<open>impair()\<close> has returned the pass sleeps for
  \<open>min 11400 CHECK_INTERVAL\<close>, which is 30 seconds.
\<close>

theorem late_evening_scenario:
  "let now = \<lparr>day = d, hour = 23, minute = 50, second = 0, microsecond = 0\<rparr>;
       next_start0 = replace_time now HEALTHY_START_HOUR 0 0 0
   in \<not> in_healthy_window now \<and>
      dt_le next_start0 now \<and>
      add_one_day next_start0 = window_start_on (d + 1) \<and>
      total_seconds (dt_sub (add_one_day next_start0) now) = 11400 \<and>
      min 11400 CHECK_INTERVAL = 30 \<and>
      (impair sh w = (Inr (), w', ev) \<longrightarrow>
         iteration sh now w = (Inr (), w', ev @ [Sleep (min 11400 CHECK_INTERVAL)]))"
proof -
  define now where "now = \<lparr>day = d, hour = 23, minute = 50, second = 0, microsecond = 0\<rparr>"
  have out: "\<not> in_healthy_window now"
    by (simp add: now_def in_healthy_window_def HEALTHY_START_HOUR_def HEALTHY_END_HOUR_def)
  have le: "dt_le (window_start_on (day now)) now"
    by (simp add: now_def dt_le_def dt_less_def window_start_on_def HEALTHY_START_HOUR_def)
  have dist: "total_seconds (dt_sub (window_start_on (day now + 1)) now) = 11400"
    by (simp add: now_def dt_sub_def secs_of_day_def window_start_on_def HEALTHY_START_HOUR_def
        total_seconds_def)
  have it: "iteration sh now w = (Inr (), w', ev @ [Sleep (min 11400 CHECK_INTERVAL)])"
    if "impair sh w = (Inr (), w', ev)"
    using out le dist impaired_branch_ok [of sh w w' ev now, OF that]
    by (simp add: iteration_def)
  have d: "day now = d" by (simp add: now_def)
  from out le dist it d show ?thesis
    unfolding Let_def now_def [symmetric] replace_start add_one_day_window_start
    by (simp add: CHECK_INTERVAL_def)
qed

theorem late_evening_scenario_witness:
  "impair tc_machine False = (Inr (), True, [Exec SHOW_CMD, Stdout Applying, Exec IMPAIR_CMD]) \<and>
   \<not> in_healthy_window \<lparr>day = 739924, hour = 23, minute = 50, second = 0, microsecond = 0\<rparr> \<and>
   iteration tc_machine \<lparr>day = 739924, hour = 23, minute = 50, second = 0, microsecond = 0\<rparr> False =
     (Inr (), True, [Exec SHOW_CMD, Stdout Applying, Exec IMPAIR_CMD, Sleep 30])"
  using late_evening_scenario [of 739924 tc_machine False True
      "[Exec SHOW_CMD, Stdout Applying, Exec IMPAIR_CMD]"]
  by (simp add: Let_def impair_tc_machine_clean)

subsection \<open>Sleeping inside the window\<close>

text \<open>
  Claim C4. In the healthy branch, once \<^verbatim>\<open>heal()\<close> has returned: when \<open>now\<close> is strictly
  before today's end of the window, the pass sleeps for the time to that end, which is
  positive, plus one second, so the moment it wakes at is one second after the end and
  never before it; when the end of the window is not in the future, the pass sleeps for
  \<open>CHECK_INTERVAL\<close>. Inside the healthy window the loop body is this branch.
\<close>

theorem healthy_sleep_lands_after_end:
  assumes "valid_datetime now" and "heal sh w = (Inr (), w', ev)"
  shows "let boundary = window_end_on (day now);
             until = total_seconds (instant boundary - instant now)
         in (instant now < instant boundary \<longrightarrow>
               healthy_branch sh now w =
                 (Inr (), w', ev @ [Stdout (HealthySleeping (py_int until)), Sleep (until + 1)]) \<and>
               0 < until \<and>
               total_seconds (instant now) + (until + 1) = total_seconds (instant boundary) + 1 \<and>
               total_seconds (instant boundary) \<le> total_seconds (instant now) + (until + 1)) \<and>
            (instant boundary \<le> instant now \<longrightarrow>
               healthy_branch sh now w = (Inr (), w', ev @ [Sleep CHECK_INTERVAL])) \<and>
            (in_healthy_window now \<longrightarrow> iteration sh now w = healthy_branch sh now w)"
proof -
  have cmp: "dt_le (window_end_on (day now)) now \<longleftrightarrow>
             instant (window_end_on (day now)) \<le> instant now"
    by (rule dt_le_instant [OF valid_window_end [of "day now"] assms(1)])
  note hb = healthy_branch_ok [of sh w w' ev now, OF assms(2)]
  have early: "healthy_branch sh now w =
      (Inr (), w', ev @ [Stdout (HealthySleeping (py_int (total_seconds
            (instant (window_end_on (day now)) - instant now)))),
         Sleep (total_seconds (instant (window_end_on (day now)) - instant now) + 1)])"
    if "instant now < instant (window_end_on (day now))"
  proof -
    from that cmp have "\<not> dt_le (window_end_on (day now)) now" by simp
    with hb show ?thesis unfolding dt_sub_instant by simp
  qed
  have late: "healthy_branch sh now w = (Inr (), w', ev @ [Sleep CHECK_INTERVAL])"
    if "instant (window_end_on (day now)) \<le> instant now"
  proof -
    from that cmp have "dt_le (window_end_on (day now)) now" by simp
    with hb show ?thesis by simp
  qed
  have target: "total_seconds (instant now) +
       (total_seconds (instant (window_end_on (day now)) - instant now) + 1) =
       total_seconds (instant (window_end_on (day now))) + 1"
    by (simp add: total_seconds_diff)
  have it: "in_healthy_window now \<longrightarrow> iteration sh now w = healthy_branch sh now w"
    by (simp add: iteration_def)
  have pos: "0 < total_seconds (instant (window_end_on (day now)) - instant now)"
    if "instant now < instant (window_end_on (day now))"
    using that by (simp add: total_seconds_pos)
  from early late target it pos show ?thesis
    unfolding Let_def by simp
qed

theorem healthy_sleep_lands_after_end_witness:
  "valid_datetime \<lparr>day = 739924, hour = 3, minute = 10, second = 0, microsecond = 0\<rparr> \<and>
   heal tc_machine True = (Inr (), False, [Exec SHOW_CMD, Stdout Removing, Exec HEAL_CMD]) \<and>
   instant \<lparr>day = 739924, hour = 3, minute = 10, second = 0, microsecond = 0\<rparr>
     < instant (window_end_on 739924) \<and>
   in_healthy_window \<lparr>day = 739924, hour = 3, minute = 10, second = 0, microsecond = 0\<rparr> \<and>
   iteration tc_machine \<lparr>day = 739924, hour = 3, minute = 10, second = 0, microsecond = 0\<rparr> True =
     (Inr (), False, [Exec SHOW_CMD, Stdout Removing, Exec HEAL_CMD,
                      Stdout (HealthySleeping 3000), Sleep 3001]) \<and>
   valid_datetime \<lparr>day = 739924, hour = 5, minute = 0, second = 0, microsecond = 0\<rparr> \<and>
   instant (window_end_on 739924)
     \<le> instant \<lparr>day = 739924, hour = 5, minute = 0, second = 0, microsecond = 0\<rparr> \<and>
   healthy_branch tc_machine \<lparr>day = 739924, hour = 5, minute = 0, second = 0, microsecond = 0\<rparr> True =
     (Inr (), False, [Exec SHOW_CMD, Stdout Removing, Exec HEAL_CMD, Sleep 30])"
  using healthy_sleep_lands_after_end
      [of "\<lparr>day = 739924, hour = 3, minute = 10, second = 0, microsecond = 0\<rparr>" tc_machine True False
          "[Exec SHOW_CMD, Stdout Removing, Exec HEAL_CMD]"]
    healthy_sleep_lands_after_end
      [of "\<lparr>day = 739924, hour = 5, minute = 0, second = 0, microsecond = 0\<rparr>" tc_machine True False
          "[Exec SHOW_CMD, Stdout Removing, Exec HEAL_CMD]"]
  by (simp add: valid_datetime_def in_healthy_window_def HEALTHY_START_HOUR_def HEALTHY_END_HOUR_def
      heal_tc_machine_impaired Let_def instant_def window_end_on_def total_seconds_def
      CHECK_INTERVAL_def py_int_def)

text \<open>
  Claim C9. Whenever \<open>in_healthy_window now\<close> holds, the end of the window the pass computes
  is strictly greater than \<open>now\<close>, so the test that guards the sleep of \<open>CHECK_INTERVAL\<close> is
  false and the pass, once \<^verbatim>\<open>heal()\<close> has returned, prints its line and sleeps to the end
  of the window plus one second.
\<close>

theorem healthy_fallback_unreachable:
  assumes "in_healthy_window now"
  shows "dt_less now (replace_time now HEALTHY_END_HOUR 0 0 0) \<and>
         \<not> dt_le (replace_time now HEALTHY_END_HOUR 0 0 0) now \<and>
         (valid_datetime now \<longrightarrow> instant now < instant (replace_time now HEALTHY_END_HOUR 0 0 0)) \<and>
         (heal sh w = (Inr (), w', ev) \<longrightarrow>
            iteration sh now w =
              (let delta = total_seconds (dt_sub (replace_time now HEALTHY_END_HOUR 0 0 0) now)
               in (Inr (), w', ev @ [Stdout (HealthySleeping (py_int delta)), Sleep (delta + 1)])))"
proof -
  from assms have h: "hour now = 3"
    by (simp add: in_healthy_window_def Let_def HEALTHY_START_HOUR_def HEALTHY_END_HOUR_def)
  then have less: "dt_less now (replace_time now HEALTHY_END_HOUR 0 0 0)"
    by (simp add: dt_less_def replace_time_def HEALTHY_END_HOUR_def)
  from h have nle: "\<not> dt_le (replace_time now HEALTHY_END_HOUR 0 0 0) now"
    by (simp add: dt_le_def dt_less_def replace_time_def HEALTHY_END_HOUR_def)
  have inst: "instant now < instant (replace_time now HEALTHY_END_HOUR 0 0 0)" if "valid_datetime now"
    using less dt_less_instant [OF that valid_window_end [of "day now"]]
    by (simp add: replace_end)
  have it: "iteration sh now w =
      (let delta = total_seconds (dt_sub (replace_time now HEALTHY_END_HOUR 0 0 0) now)
       in (Inr (), w', ev @ [Stdout (HealthySleeping (py_int delta)), Sleep (delta + 1)]))"
    if "heal sh w = (Inr (), w', ev)"
    using assms nle healthy_branch_ok [of sh w w' ev now, OF that]
    by (simp add: iteration_def replace_end Let_def)
  from less nle inst it show ?thesis by blast
qed

theorem healthy_fallback_unreachable_witness:
  "in_healthy_window \<lparr>day = 739924, hour = 3, minute = 59, second = 59, microsecond = 999999\<rparr> \<and>
   valid_datetime \<lparr>day = 739924, hour = 3, minute = 59, second = 59, microsecond = 999999\<rparr> \<and>
   instant \<lparr>day = 739924, hour = 3, minute = 59, second = 59, microsecond = 999999\<rparr>
     < instant \<lparr>day = 739924, hour = 4, minute = 0, second = 0, microsecond = 0\<rparr> \<and>
   heal tc_machine False = (Inr (), False, [Exec SHOW_CMD]) \<and>
   iteration tc_machine \<lparr>day = 739924, hour = 3, minute = 59, second = 59, microsecond = 999999\<rparr> False =
     (Inr (), False, [Exec SHOW_CMD, Stdout (HealthySleeping 0), Sleep (1000001 / 1000000)])"
  using healthy_fallback_unreachable
      [of "\<lparr>day = 739924, hour = 3, minute = 59, second = 59, microsecond = 999999\<rparr>"
          tc_machine False False "[Exec SHOW_CMD]"]
  by (simp add: valid_datetime_def in_healthy_window_def HEALTHY_START_HOUR_def HEALTHY_END_HOUR_def
      heal_tc_machine_clean Let_def instant_def replace_time_def dt_sub_def secs_of_day_def
      total_seconds_def py_int_def)

subsection \<open>Probe and reconciliation\<close>

text \<open>
  Claim C2, as the claim states it, fails: with nothing but the script touching the
  interface, two calls of \<^verbatim>\<open>impair()\<close> in a row issue two apply commands when the first
  apply fails, and two calls of \<^verbatim>\<open>heal()\<close> in a row issue two removals when the first
  removal fails. The machine is one on which the query works and every change is refused.
\<close>

theorem failed_command_is_issued_again_counterexample:
  "twice (impair (tc_refusing 2)) False =
     (Inr (), False,
      [Exec SHOW_CMD, Stdout Applying, Exec IMPAIR_CMD, Stderr (ApplyFailed (CalledProcessError 2)),
       Exec SHOW_CMD, Stdout Applying, Exec IMPAIR_CMD, Stderr (ApplyFailed (CalledProcessError 2))]) \<and>
   applies (snd (snd (twice (impair (tc_refusing 2)) False))) = 2 \<and>
   \<not> applies (snd (snd (twice (impair (tc_refusing 2)) False))) \<le> 1 \<and>
   twice (heal (tc_refusing 1)) True =
     (Inr (), True,
      [Exec SHOW_CMD, Stdout Removing, Exec HEAL_CMD, Stderr (RemoveFailed (CalledProcessError 1)),
       Exec SHOW_CMD, Stdout Removing, Exec HEAL_CMD, Stderr (RemoveFailed (CalledProcessError 1))]) \<and>
   removals (snd (snd (twice (heal (tc_refusing 1)) True))) = 2 \<and>
   \<not> removals (snd (snd (twice (heal (tc_refusing 1)) True))) \<le> 1"
  by (simp add: twice_def impair_tc_refusing heal_tc_refusing applies_def removals_def cmds_distinct)

text \<open>
  Claim C2, amended. When the probe reports the impairment, \<^verbatim>\<open>impair()\<close> issues no
  state-changing command. When the probe reports none, \<^verbatim>\<open>impair()\<close> issues exactly one,
  the apply command. On a machine where the query is truthful and the apply and removal
  commands succeed, two calls of \<^verbatim>\<open>impair()\<close> in a row issue at most one apply command in
  total (none when the interface was impaired, one otherwise), and two calls of
  \<^verbatim>\<open>heal()\<close> in a row issue at most one removal in total.
\<close>

theorem reconcile_issues_minimal_commands:
  "(has_netem sh w = (Inr True, w1, ev1) \<longrightarrow>
      impair sh w = (Inr (), w1, ev1) \<and> state_changing_cmds (snd (snd (impair sh w))) = []) \<and>
   (has_netem sh w = (Inr False, w1, ev1) \<longrightarrow>
      state_changing_cmds (snd (snd (impair sh w))) = [IMPAIR_CMD] \<and>
      applies (snd (snd (impair sh w))) = 1) \<and>
   (well_behaved sh present \<longrightarrow>
      fst (twice (impair sh) w) = Inr () \<and>
      state_changing_cmds (snd (snd (twice (impair sh) w))) = (if present w then [] else [IMPAIR_CMD]) \<and>
      applies (snd (snd (twice (impair sh) w))) \<le> 1 \<and>
      fst (twice (heal sh) w) = Inr () \<and>
      state_changing_cmds (snd (snd (twice (heal sh) w))) = (if present w then [HEAL_CMD] else []) \<and>
      removals (snd (snd (twice (heal sh) w))) \<le> 1)"
proof -
  have p1: "impair sh w = (Inr (), w1, ev1) \<and> state_changing_cmds (snd (snd (impair sh w))) = []"
    if h: "has_netem sh w = (Inr True, w1, ev1)"
  proof -
    have "ev1 = [Exec SHOW_CMD]" by (rule has_netem_events_eq [OF h])
    with impair_present [of sh w w1 ev1, OF h] show ?thesis by simp
  qed
  have p2: "state_changing_cmds (snd (snd (impair sh w))) = [IMPAIR_CMD] \<and>
      applies (snd (snd (impair sh w))) = 1"
    if h: "has_netem sh w = (Inr False, w1, ev1)"
    by (rule impair_absent_events [OF h])
  have p3: "fst (twice (impair sh) w) = Inr () \<and>
      state_changing_cmds (snd (snd (twice (impair sh) w))) = (if present w then [] else [IMPAIR_CMD]) \<and>
      applies (snd (snd (twice (impair sh) w))) \<le> 1"
    if wb: "well_behaved sh present"
  proof -
    from twice_impair_well_behaved [OF wb, of w] obtain w' where
      "twice (impair sh) w =
           (Inr (), w', if present w then [Exec SHOW_CMD, Exec SHOW_CMD]
                        else [Exec SHOW_CMD, Stdout Applying, Exec IMPAIR_CMD, Exec SHOW_CMD])" by blast
    then show ?thesis by (simp add: applies_def cmds_distinct)
  qed
  have p4: "fst (twice (heal sh) w) = Inr () \<and>
      state_changing_cmds (snd (snd (twice (heal sh) w))) = (if present w then [HEAL_CMD] else []) \<and>
      removals (snd (snd (twice (heal sh) w))) \<le> 1"
    if wb: "well_behaved sh present"
  proof -
    from twice_heal_well_behaved [OF wb, of w] obtain w' where
      "twice (heal sh) w =
           (Inr (), w', if present w then [Exec SHOW_CMD, Stdout Removing, Exec HEAL_CMD, Exec SHOW_CMD]
                        else [Exec SHOW_CMD, Exec SHOW_CMD])" by blast
    then show ?thesis by (simp add: removals_def cmds_distinct)
  qed
  from p1 p2 p3 p4 show ?thesis by blast
qed

theorem reconcile_issues_minimal_commands_witness:
  "has_netem tc_machine True = (Inr True, True, [Exec SHOW_CMD]) \<and>
   impair tc_machine True = (Inr (), True, [Exec SHOW_CMD]) \<and>
   state_changing_cmds (snd (snd (impair tc_machine True))) = [] \<and>
   has_netem tc_machine False = (Inr False, False, [Exec SHOW_CMD]) \<and>
   state_changing_cmds (snd (snd (impair tc_machine False))) = [IMPAIR_CMD] \<and>
   applies (snd (snd (impair tc_machine False))) = 1 \<and>
   well_behaved tc_machine (\<lambda>netem. netem) \<and>
   state_changing_cmds (snd (snd (twice (impair tc_machine) False))) = [IMPAIR_CMD] \<and>
   applies (snd (snd (twice (impair tc_machine) False))) \<le> 1 \<and>
   state_changing_cmds (snd (snd (twice (heal tc_machine) True))) = [HEAL_CMD] \<and>
   removals (snd (snd (twice (heal tc_machine) True))) \<le> 1"
  using reconcile_issues_minimal_commands [of tc_machine True True "[Exec SHOW_CMD]" "\<lambda>netem. netem"]
    reconcile_issues_minimal_commands [of tc_machine False False "[Exec SHOW_CMD]" "\<lambda>netem. netem"]
  by (simp add: has_netem_tc_machine well_behaved_tc_machine)

text \<open>
  Claim C5, as the claim states it, fails. When the query cannot be started, \<^verbatim>\<open>has_netem\<close>
  does not return false: the \<^verbatim>\<open>OSError\<close> leaves it, and leaves \<^verbatim>\<open>heal()\<close> and
  \<^verbatim>\<open>impair()\<close> too, which then issue nothing. The same holds of the
  \<^verbatim>\<open>UnicodeDecodeError\<close> of a query that runs, writes bytes that do not decode and ends
  with a return code other than 0.
\<close>

theorem uncaught_query_failure_counterexample:
  "tc_missing SHOW_CMD () = (LaunchError, ()) \<and>
   has_netem tc_missing () = (Inl OSError, (), [Exec SHOW_CMD]) \<and>
   fst (has_netem tc_missing ()) \<noteq> Inr False \<and>
   heal tc_missing () = (Inl OSError, (), [Exec SHOW_CMD]) \<and>
   impair tc_missing () = (Inl OSError, (), [Exec SHOW_CMD]) \<and>
   applies (snd (snd (impair tc_missing ()))) = 0 \<and>
   tc_garbled 1 SHOW_CMD True = (Exited 1 Undecodable, True) \<and>
   has_netem (tc_garbled 1) True = (Inl UnicodeDecodeError, True, [Exec SHOW_CMD]) \<and>
   fst (has_netem (tc_garbled 1) True) \<noteq> Inr False \<and>
   heal (tc_garbled 1) True = (Inl UnicodeDecodeError, True, [Exec SHOW_CMD]) \<and>
   impair (tc_garbled 1) True = (Inl UnicodeDecodeError, True, [Exec SHOW_CMD]) \<and>
   applies (snd (snd (impair (tc_garbled 1) True))) = 0"
  using heal_crashed [of tc_missing "()" OSError "()" "[Exec SHOW_CMD]"]
    impair_crashed [of tc_missing "()" OSError "()" "[Exec SHOW_CMD]"]
    heal_crashed [of "tc_garbled 1" True UnicodeDecodeError True "[Exec SHOW_CMD]"]
    impair_crashed [of "tc_garbled 1" True UnicodeDecodeError True "[Exec SHOW_CMD]"]
  by (simp add: tc_missing_has_netem has_netem_tc_garbled tc_garbled_show tc_missing_def
      applies_def cmds_distinct)

text \<open>
  Claim C5, amended. When the query runs, its output decodes and it ends with a return code
  other than 0, \<^verbatim>\<open>has_netem\<close> returns false; \<^verbatim>\<open>heal()\<close> then returns without issuing a
  removal and \<^verbatim>\<open>impair()\<close> issues exactly one apply command, whatever the state of the
  interface is.
\<close>

theorem failed_query_reads_as_clean:
  assumes "sh SHOW_CMD w = (Exited rc (Text out), w1)" and "rc \<noteq> 0"
  shows "has_netem sh w = (Inr False, w1, [Exec SHOW_CMD]) \<and>
         heal sh w = (Inr (), w1, [Exec SHOW_CMD]) \<and>
         state_changing_cmds (snd (snd (impair sh w))) = [IMPAIR_CMD] \<and>
         applies (snd (snd (impair sh w))) = 1"
proof -
  from has_netem_Exited [of sh w rc out w1, OF assms(1)] assms(2)
  have hn: "has_netem sh w = (Inr False, w1, [Exec SHOW_CMD])" by simp
  from heal_absent [of sh w w1 "[Exec SHOW_CMD]", OF hn]
  have "heal sh w = (Inr (), w1, [Exec SHOW_CMD])" .
  with hn impair_absent_events [of sh w w1 "[Exec SHOW_CMD]", OF hn] show ?thesis by simp
qed

theorem failed_query_reads_as_clean_witness:
  "tc_failing 1 SHOW_CMD True = (Exited 1 (Text []), True) \<and> (1::int) \<noteq> 0 \<and>
   has_netem (tc_failing 1) True = (Inr False, True, [Exec SHOW_CMD]) \<and>
   heal (tc_failing 1) True = (Inr (), True, [Exec SHOW_CMD]) \<and>
   state_changing_cmds (snd (snd (impair (tc_failing 1) True))) = [IMPAIR_CMD] \<and>
   applies (snd (snd (impair (tc_failing 1) True))) = 1"
  using failed_query_reads_as_clean [of "tc_failing 1" True 1 "[]" True]
  by (simp add: tc_failing_eq)

text \<open>
  Claim C6. When \<^verbatim>\<open>heal()\<close> issues the removal and the removal ends with a return code
  other than 0: with code 2 nothing is written to the standard error, with any other code
  one line is; in both cases \<^verbatim>\<open>heal()\<close> returns normally, having issued one removal.
\<close>

theorem removal_failure_is_not_fatal:
  assumes "has_netem sh w = (Inr True, w1, ev1)"
    and "sh HEAL_CMD w1 = (Exited rc out, w2)" and "rc \<noteq> 0"
  shows "heal sh w =
           (Inr (), w2,
            [Exec SHOW_CMD, Stdout Removing, Exec HEAL_CMD] @
            (if rc = 2 then [] else [Stderr (RemoveFailed (CalledProcessError rc))])) \<and>
         filter is_stderr (snd (snd (heal sh w))) =
            (if rc = 2 then [] else [Stderr (RemoveFailed (CalledProcessError rc))]) \<and>
         removals (snd (snd (heal sh w))) = 1"
proof -
  have ev1: "ev1 = [Exec SHOW_CMD]" by (rule has_netem_events_eq [OF assms(1)])
  from heal_present_Exited [of sh w w1 ev1 rc out w2, OF assms(1,2)] assms(3) ev1
  have "heal sh w =
           (Inr (), w2,
            [Exec SHOW_CMD, Stdout Removing, Exec HEAL_CMD] @
            (if rc = 2 then [] else [Stderr (RemoveFailed (CalledProcessError rc))]))"
    by simp
  then show ?thesis by (simp add: removals_def cmds_distinct)
qed

theorem removal_failure_is_not_fatal_witness:
  "has_netem (tc_refusing 2) True = (Inr True, True, [Exec SHOW_CMD]) \<and>
   tc_refusing 2 HEAL_CMD True = (Exited 2 (Text []), True) \<and> (2::int) \<noteq> 0 \<and>
   heal (tc_refusing 2) True = (Inr (), True, [Exec SHOW_CMD, Stdout Removing, Exec HEAL_CMD]) \<and>
   filter is_stderr (snd (snd (heal (tc_refusing 2) True))) = [] \<and>
   has_netem (tc_refusing 1) True = (Inr True, True, [Exec SHOW_CMD]) \<and>
   tc_refusing 1 HEAL_CMD True = (Exited 1 (Text []), True) \<and> (1::int) \<noteq> 0 \<and>
   heal (tc_refusing 1) True =
     (Inr (), True, [Exec SHOW_CMD, Stdout Removing, Exec HEAL_CMD,
                     Stderr (RemoveFailed (CalledProcessError 1))]) \<and>
   filter is_stderr (snd (snd (heal (tc_refusing 1) True))) =
     [Stderr (RemoveFailed (CalledProcessError 1))]"
  using removal_failure_is_not_fatal [of "tc_refusing 2" True True "[Exec SHOW_CMD]" 2 "Text []" True]
    removal_failure_is_not_fatal [of "tc_refusing 1" True True "[Exec SHOW_CMD]" 1 "Text []" True]
  by (simp add: has_netem_tc_refusing tc_refusing_del)

subsection \<open>The loop goes on\<close>

text \<open>
  Claim C7, as the claim states it, fails. A command that cannot be started raises an
  \<^verbatim>\<open>OSError\<close> that nothing catches: the pass does not reach its sleep and the loop, and
  with it the process, ends. So does the loop on a machine where every command starts and
  the query writes bytes that do not decode: the \<^verbatim>\<open>UnicodeDecodeError\<close> is not caught
  either.
\<close>

theorem uncaught_command_failure_ends_the_loop_counterexample:
  "tc_missing SHOW_CMD () = (LaunchError, ()) \<and>
   iteration tc_missing \<lparr>day = 739924, hour = 2, minute = 59, second = 31, microsecond = 0\<rparr> () =
     (Inl OSError, (), [Exec SHOW_CMD]) \<and>
   iteration tc_missing \<lparr>day = 739924, hour = 3, minute = 0, second = 0, microsecond = 0\<rparr> () =
     (Inl OSError, (), [Exec SHOW_CMD]) \<and>
   main tc_missing
     [\<lparr>day = 739924, hour = 2, minute = 59, second = 31, microsecond = 0\<rparr>,
      \<lparr>day = 739924, hour = 3, minute = 0, second = 0, microsecond = 0\<rparr>] () =
     (Inl OSError, (), [Stdout Started, Exec SHOW_CMD]) \<and>
   fst (main tc_missing
     [\<lparr>day = 739924, hour = 2, minute = 59, second = 31, microsecond = 0\<rparr>,
      \<lparr>day = 739924, hour = 3, minute = 0, second = 0, microsecond = 0\<rparr>] ()) \<noteq> Inr () \<and>
   sleeps (snd (snd (main tc_missing
     [\<lparr>day = 739924, hour = 2, minute = 59, second = 31, microsecond = 0\<rparr>,
      \<lparr>day = 739924, hour = 3, minute = 0, second = 0, microsecond = 0\<rparr>] ()))) = [] \<and>
   always_launches (tc_garbled 1) \<and>
   tc_garbled 1 SHOW_CMD True = (Exited 1 Undecodable, True) \<and>
   iteration (tc_garbled 1)
     \<lparr>day = 739924, hour = 2, minute = 59, second = 31, microsecond = 0\<rparr> True =
     (Inl UnicodeDecodeError, True, [Exec SHOW_CMD]) \<and>
   iteration (tc_garbled 1)
     \<lparr>day = 739924, hour = 3, minute = 0, second = 0, microsecond = 0\<rparr> True =
     (Inl UnicodeDecodeError, True, [Exec SHOW_CMD]) \<and>
   main (tc_garbled 1)
     [\<lparr>day = 739924, hour = 2, minute = 59, second = 31, microsecond = 0\<rparr>,
      \<lparr>day = 739924, hour = 3, minute = 0, second = 0, microsecond = 0\<rparr>] True =
     (Inl UnicodeDecodeError, True, [Stdout Started, Exec SHOW_CMD]) \<and>
   fst (main (tc_garbled 1)
     [\<lparr>day = 739924, hour = 2, minute = 59, second = 31, microsecond = 0\<rparr>,
      \<lparr>day = 739924, hour = 3, minute = 0, second = 0, microsecond = 0\<rparr>] True) \<noteq> Inr ()"
  by (simp add: iteration_tc_missing iteration_tc_garbled main_def tc_missing_def
      tc_garbled_show always_launches_tc_garbled)

text \<open>
  Claim C7, amended. On a machine where every command can be started and the output of the
  query decodes, whatever return codes the commands give, and for clock readings before
  the last day of year 9999: \<^verbatim>\<open>impair()\<close> and \<^verbatim>\<open>heal()\<close> return normally, every pass of
  the loop runs to its one sleep, and the loop is still running after any number of passes.
\<close>

theorem exit_codes_never_end_the_loop:
  assumes "always_launches sh" and "query_decodes sh"
    and "clock_reading now" and "list_all clock_reading clock"
  shows "fst (impair sh w) = Inr () \<and> fst (heal sh w) = Inr () \<and>
         fst (iteration sh now w) = Inr () \<and>
         length (sleeps (snd (snd (iteration sh now w)))) = 1 \<and>
         fst (main_loop sh clock w) = Inr () \<and>
         length (sleeps (snd (snd (main_loop sh clock w)))) = length clock \<and>
         fst (main sh clock w) = Inr ()"
proof -
  note run = assms(1,2)
  from always_launches_impair [OF run, of w] have i: "fst (impair sh w) = Inr ()" by force
  from always_launches_heal [OF run, of w] have h: "fst (heal sh w) = Inr ()" by force
  have m: "fst (main sh clock w) = fst (main_loop sh clock w)"
    by (simp add: main_def split: prod.split)
  from i h m always_launches_iteration [OF run, of now w]
    always_launches_main_loop [OF run, of clock w]
  show ?thesis by simp
qed

theorem exit_codes_never_end_the_loop_witness:
  "always_launches (tc_failing 1) \<and> query_decodes (tc_failing 1) \<and>
   clock_reading \<lparr>day = 739924, hour = 2, minute = 59, second = 31, microsecond = 0\<rparr> \<and>
   list_all clock_reading
     [\<lparr>day = 739924, hour = 2, minute = 59, second = 31, microsecond = 0\<rparr>,
      \<lparr>day = 739924, hour = 3, minute = 0, second = 0, microsecond = 0\<rparr>] \<and>
   main_loop (tc_failing 1)
     [\<lparr>day = 739924, hour = 2, minute = 59, second = 31, microsecond = 0\<rparr>,
      \<lparr>day = 739924, hour = 3, minute = 0, second = 0, microsecond = 0\<rparr>] True =
     (Inr (), True,
      [Exec SHOW_CMD, Stdout Applying, Exec IMPAIR_CMD, Stderr (ApplyFailed (CalledProcessError 1)),
       Sleep 29,
       Exec SHOW_CMD, Stdout (HealthySleeping 3600), Sleep 3601]) \<and>
   fst (main (tc_failing 1)
     [\<lparr>day = 739924, hour = 2, minute = 59, second = 31, microsecond = 0\<rparr>,
      \<lparr>day = 739924, hour = 3, minute = 0, second = 0, microsecond = 0\<rparr>] True) = Inr ()"
  using exit_codes_never_end_the_loop [of "tc_failing 1"
      "\<lparr>day = 739924, hour = 2, minute = 59, second = 31, microsecond = 0\<rparr>"
      "[\<lparr>day = 739924, hour = 2, minute = 59, second = 31, microsecond = 0\<rparr>,
        \<lparr>day = 739924, hour = 3, minute = 0, second = 0, microsecond = 0\<rparr>]" True]
  by (simp add: always_launches_tc_failing query_decodes_tc_failing clock_reading_def
      valid_datetime_def MAXORDINAL_def iteration_tc_failing_0259 iteration_tc_failing_0300)

end
